theory Spec2Isabelle
  imports Main
begin

section \<open>The factory of the service graph processor (factory.go)\<close>

subsection \<open>Constants\<close>

text \<open>
  Go's \<^verbatim>\<open>time.Duration\<close> is a count of nanoseconds in an \<^verbatim>\<open>int64\<close>. The constants of
  package \<^verbatim>\<open>time\<close> are written out as the standard library declares them. Constant
  expressions of Go are evaluated exactly and must fit the type, so no value below wraps
  around; \<open>fitsInt64\<close> states the bound.
\<close>

type_synonym Duration = int

definition Nanosecond :: Duration where
  "Nanosecond = 1"

definition Microsecond :: Duration where
  "Microsecond = 1000 * Nanosecond"

definition Millisecond :: Duration where
  "Millisecond = 1000 * Microsecond"

definition Second :: Duration where
  "Second = 1000 * Millisecond"

definition fitsInt64 :: "int \<Rightarrow> bool" where
  "fitsInt64 n = (- (2 ^ 63) \<le> n \<and> n < 2 ^ 63)"

definition TypeStr :: string where
  "TypeStr = ''service_graphs''"

definition DefaultWait :: Duration where
  "DefaultWait = Second * 10"

definition DefaultMaxItems :: int where
  "DefaultMaxItems = 10000"

definition DefaultWorkers :: int where
  "DefaultWorkers = 10"

subsection \<open>Configuration\<close>

text \<open>
  \<^verbatim>\<open>successCodes\<close> holds two slices of \<^verbatim>\<open>int64\<close>; \<^verbatim>\<open>Config\<close> holds the wait, the capacity,
  the number of workers and a pointer to the success codes (\<open>None\<close> is the nil pointer).
  The embedded \<^verbatim>\<open>component.Config\<close> is an empty interface and carries no data. The file
  does no arithmetic on the integer fields, so they are integers without wrap-around.
\<close>

record successCodes =
  http :: "int list"
  grpc :: "int list"

record Config =
  Wait :: Duration
  MaxItems :: int
  Workers :: int
  SuccessCodes :: "successCodes option"

text \<open>
  A value of the interface \<^verbatim>\<open>component.Config\<close>: the nil interface, a \<^verbatim>\<open>*Config\<close> (itself
  possibly the nil pointer), or a value of some other dynamic type, named by its type.
\<close>

datatype component_Config =
  NilInterface
  | ConfigPtr "Config option"
  | OtherConfig string

text \<open>A call either panics or returns.\<close>

datatype 'a outcome = Panics | Returns 'a

datatype error = Error string

text \<open>The composite literal \<^verbatim>\<open>Config{}\<close> names no field: every field has the zero value of
  its type. \<^verbatim>\<open>createDefaultConfig\<close> returns \<^verbatim>\<open>&Config{}\<close>, a pointer to it.\<close>

definition zeroConfig :: Config where
  "zeroConfig = \<lparr>Wait = 0, MaxItems = 0, Workers = 0, SuccessCodes = None\<rparr>"

definition createDefaultConfig :: component_Config where
  "createDefaultConfig = ConfigPtr (Some zeroConfig)"

subsection \<open>Decoding the configuration\<close>

text \<open>
  The \<^verbatim>\<open>mapstructure\<close> tags of the structs address the decoder of that library, which
  fills a struct from the keys of the configuration file. It writes a field through
  reflection: for each field it looks up the key named by the tag, and a field that cannot
  be set, which is every field with an unexported name, is passed over and keeps its
  value. A name is exported when it starts with an upper-case letter; the names of this
  file are ASCII, where the upper-case letters are the codes 65 (A) to 90 (Z).
\<close>

record structField =
  goName :: string
  mapstructureTag :: string

definition isExported :: "string \<Rightarrow> bool" where
  "isExported name =
     (case name of
        [] \<Rightarrow> False
      | c # cs \<Rightarrow> (65::nat) \<le> of_char c \<and> of_char c \<le> (90::nat))"

text \<open>Decoding one field of type \<^verbatim>\<open>[]int64\<close> from a section of the file, given as its keys
  with their lists of integers.\<close>

definition decodeField :: "structField \<Rightarrow> (string \<times> int list) list \<Rightarrow> int list \<Rightarrow> int list" where
  "decodeField f raw old =
     (if isExported (goName f)
      then (case map_of raw (mapstructureTag f) of None \<Rightarrow> old | Some v \<Rightarrow> v)
      else old)"

text \<open>The two fields of \<^verbatim>\<open>successCodes\<close> as factory.go declares them:
  \<^verbatim>\<open>http []int64 `mapstructure:"http"`\<close> and \<^verbatim>\<open>grpc []int64 `mapstructure:"grpc"`\<close>.\<close>

definition httpField :: structField where
  "httpField = \<lparr>goName = ''http'', mapstructureTag = ''http''\<rparr>"

definition grpcField :: structField where
  "grpcField = \<lparr>goName = ''grpc'', mapstructureTag = ''grpc''\<rparr>"

definition zeroSuccessCodes :: successCodes where
  "zeroSuccessCodes = \<lparr>http = [], grpc = []\<rparr>"

definition decodeSuccessCodes :: "(string \<times> int list) list \<Rightarrow> successCodes \<Rightarrow> successCodes" where
  "decodeSuccessCodes raw sc =
     sc\<lparr>http := decodeField httpField raw (http sc),
        grpc := decodeField grpcField raw (grpc sc)\<rparr>"

text \<open>The field \<^verbatim>\<open>SuccessCodes\<close> of \<^verbatim>\<open>Config\<close> is exported, with the tag \<^verbatim>\<open>success_codes\<close>: when
  the file has that key, the decoder allocates the struct if the pointer is nil and decodes
  the section into it; without the key the pointer is left as it is.\<close>

definition decodeSuccessCodesKey :: "(string \<times> int list) list option \<Rightarrow> Config \<Rightarrow> Config" where
  "decodeSuccessCodesKey sect cfg =
     (case sect of
        None \<Rightarrow> cfg
      | Some raw \<Rightarrow>
          cfg\<lparr>SuccessCodes :=
                Some (decodeSuccessCodes raw
                        (case SuccessCodes cfg of None \<Rightarrow> zeroSuccessCodes | Some sc \<Rightarrow> sc))\<rparr>)"

text \<open>The type assertion \<^verbatim>\<open>cfg.(*Config)\<close> in its one-result form: it panics unless the
  dynamic type of \<open>cfg\<close> is \<^verbatim>\<open>*Config\<close>.\<close>

fun assertConfigPtr :: "component_Config \<Rightarrow> Config option outcome" where
  "assertConfigPtr (ConfigPtr p) = Returns p"
| "assertConfigPtr NilInterface = Panics"
| "assertConfigPtr (OtherConfig t) = Panics"

text \<open>
  \<^verbatim>\<open>createTracesProcessor\<close> ignores the context and the settings, asserts the type of the
  configuration and returns \<^verbatim>\<open>newProcessor(nextConsumer, eCfg), nil\<close>. \<^verbatim>\<open>newProcessor\<close> lives
  in another file of the package; it is a parameter here, and may itself panic.
\<close>

definition createTracesProcessor ::
  "('n \<Rightarrow> Config option \<Rightarrow> 'p outcome) \<Rightarrow> 'x \<Rightarrow> 's \<Rightarrow> component_Config \<Rightarrow> 'n
     \<Rightarrow> ('p \<times> error option) outcome" where
  "createTracesProcessor newProcessor ctx settings cfg nextConsumer =
     (case assertConfigPtr cfg of
        Panics \<Rightarrow> Panics
      | Returns eCfg \<Rightarrow>
          (case newProcessor nextConsumer eCfg of
             Panics \<Rightarrow> Panics
           | Returns p \<Rightarrow> Returns (p, None)))"

subsection \<open>The factory\<close>

text \<open>
  \<^verbatim>\<open>processor.NewFactory\<close> of the collector library stores the type identifier and the
  default-configuration function and applies its options in order; \<^verbatim>\<open>WithTraces\<close> sets the
  function that creates a traces processor and its stability level.
\<close>

datatype StabilityLevel = StabilityLevelUndefined | StabilityLevelOther nat

record ('x, 's, 'n, 'p) Factory =
  cfgType :: string
  createDefaultConfigFunc :: "unit \<Rightarrow> component_Config"
  createTracesFunc ::
    "('x \<Rightarrow> 's \<Rightarrow> component_Config \<Rightarrow> 'n \<Rightarrow> ('p \<times> error option) outcome) option"
  tracesStabilityLevel :: StabilityLevel

datatype ('x, 's, 'n, 'p) FactoryOption =
  WithTraces "'x \<Rightarrow> 's \<Rightarrow> component_Config \<Rightarrow> 'n \<Rightarrow> ('p \<times> error option) outcome"
    StabilityLevel

fun applyOption ::
  "('x, 's, 'n, 'p) FactoryOption \<Rightarrow> ('x, 's, 'n, 'p) Factory \<Rightarrow> ('x, 's, 'n, 'p) Factory" where
  "applyOption (WithTraces f sl) fac =
     fac\<lparr>createTracesFunc := Some f, tracesStabilityLevel := sl\<rparr>"

definition processor_NewFactory ::
  "string \<Rightarrow> (unit \<Rightarrow> component_Config) \<Rightarrow> ('x, 's, 'n, 'p) FactoryOption list
     \<Rightarrow> ('x, 's, 'n, 'p) Factory" where
  "processor_NewFactory t cdc opts =
     fold applyOption opts
       \<lparr>cfgType = t, createDefaultConfigFunc = cdc, createTracesFunc = None,
        tracesStabilityLevel = StabilityLevelUndefined\<rparr>"

definition NewFactory ::
  "('n \<Rightarrow> Config option \<Rightarrow> 'p outcome) \<Rightarrow> ('x, 's, 'n, 'p) Factory" where
  "NewFactory newProcessor =
     processor_NewFactory TypeStr (\<lambda>_. createDefaultConfig)
       [WithTraces (createTracesProcessor newProcessor) StabilityLevelUndefined]"

section \<open>The correlation engine\<close>

text \<open>
  The engine behind \<^verbatim>\<open>newProcessor\<close> (edge store, correlator, expiry sweeper, metrics
  emitter, capacity governor) is in files of the package other than factory.go, and none
  of them is among the source files. Every definition of this section is therefore
  modelled from the specification, one caller at a time: the per-key exclusivity the
  specification requires makes every operation on the store atomic, so \<open>onSpan\<close> and
  \<open>tick\<close> are functions from engine state to engine state, and the arrival time is an
  argument.
\<close>

subsection \<open>Data model\<close>

text \<open>Modelled from the spec: the role and protocol variants of section 9, whose
  declarations are missing from the source files.\<close>

datatype role = Client | Server

datatype protocol = HTTP | GRPC | Other

text \<open>Modelled from the spec: the correlation key of section 3 (its type is missing from
  the source files), a trace identifier and a span identifier.\<close>

type_synonym CorrelationKey = "nat \<times> nat"

text \<open>Modelled from the spec: the input span of section 6 (the engine's view of a span
  is missing from the source files). A missing identifier and an unrecognised role are
  \<open>None\<close>.\<close>

record Span =
  traceID :: "nat option"
  spanID :: "nat option"
  parentSpanID :: "nat option"
  serviceName :: string
  kind :: "role option"
  startTime :: int
  endTime :: int
  statusCode :: "int option"
  protocolHint :: "protocol option"

text \<open>Modelled from the spec: the half edge of section 3 (its struct is missing from the
  source files).\<close>

record HalfEdge =
  key :: CorrelationKey
  clientService :: "string option"
  serverService :: "string option"
  clientLatencyStart :: "int option"
  serverLatencyStart :: "int option"
  edgeStatus :: "int option"
  edgeProtocol :: protocol
  expiresAt :: int
  complete :: bool

text \<open>Modelled from the spec: the completed edge of section 3 (its struct is missing from
  the source files), with the key of the half edge it is a snapshot of and the tag of an
  edge emitted with one side absent.\<close>

record CompletedEdge =
  edgeKey :: CorrelationKey
  client :: "string option"
  server :: "string option"
  latency :: "int option"
  status :: "int option"
  proto :: protocol
  incomplete :: bool

text \<open>Modelled from the spec: the \<open>sideUpdate\<close> argument of \<open>upsert\<close> (4.1, missing from
  the source files), the fields one span contributes to its half edge.\<close>

record SideUpdate =
  side :: role
  service :: string
  start :: int
  newStatus :: "int option"
  newProtocol :: "protocol option"

text \<open>Modelled from the spec: the processor that \<^verbatim>\<open>newProcessor\<close> builds (missing from the
  source files), with the success-code sets built once from the configuration
  (section 9).\<close>

record Processor =
  wait :: Duration
  maxItems :: int
  workers :: int
  httpSuccessCodes :: "int set"
  grpcSuccessCodes :: "int set"

text \<open>Modelled from the spec: the construction of the processor from the configuration
  (the body of \<^verbatim>\<open>newProcessor\<close> is missing from the source files). A nil \<^verbatim>\<open>SuccessCodes\<close>
  configures no code.\<close>

definition newEngine :: "Config \<Rightarrow> Processor" where
  "newEngine cfg =
     \<lparr>wait = Wait cfg, maxItems = MaxItems cfg, workers = Workers cfg,
      httpSuccessCodes = (case SuccessCodes cfg of None \<Rightarrow> {} | Some sc \<Rightarrow> set (http sc)),
      grpcSuccessCodes = (case SuccessCodes cfg of None \<Rightarrow> {} | Some sc \<Rightarrow> set (grpc sc))\<rparr>"

text \<open>Modelled from the spec: the engine state (missing from the source files). The store
  holds the resident half edges in insertion order; \<open>emitted\<close> is the sequence of edges handed to the emitter; the other
  fields are the series and counters of the metrics registry (section 6).\<close>

record Engine =
  store :: "HalfEdge list"
  emitted :: "CompletedEdge list"
  requestCount :: "string option \<times> string option \<times> protocol \<times> bool \<Rightarrow> nat"
  latencySamples :: "((string option \<times> string option) \<times> int) list"
  incompleteEdges :: nat
  overflow :: nat
  parsingErrors :: nat

subsection \<open>Metrics emitter\<close>

text \<open>Modelled from the spec (4.4): the classification of the metrics emitter (missing
  from the source files). An HTTP status is a success iff it is in the configured HTTP set, a gRPC status iff it is in the configured gRPC set; a status
  outside any configured set, and an absent one, is an error.\<close>

definition isSuccess :: "Processor \<Rightarrow> protocol \<Rightarrow> int option \<Rightarrow> bool" where
  "isSuccess p pr sc =
     (case sc of
        None \<Rightarrow> False
      | Some c \<Rightarrow>
          (case pr of
             HTTP \<Rightarrow> c \<in> httpSuccessCodes p
           | GRPC \<Rightarrow> c \<in> grpcSuccessCodes p
           | Other \<Rightarrow> False))"

text \<open>Modelled from the spec (4.4): \<open>emit\<close> of the metrics emitter (missing from the source
  files) counts the request under (client, server, protocol, success class); an incomplete edge increments the incomplete-edge counter,
  another edge records a latency sample when it has one.\<close>

definition emit :: "Processor \<Rightarrow> CompletedEdge \<Rightarrow> Engine \<Rightarrow> Engine" where
  "emit p e st =
     (let series = (client e, server e, proto e, isSuccess p (proto e) (status e));
          st1 = st\<lparr>emitted := emitted st @ [e],
                   requestCount := (requestCount st)(series := requestCount st series + 1)\<rparr>
      in if incomplete e then st1\<lparr>incompleteEdges := incompleteEdges st1 + 1\<rparr>
         else (case latency e of
                 None \<Rightarrow> st1
               | Some d \<Rightarrow>
                   st1\<lparr>latencySamples := latencySamples st1 @ [((client e, server e), d)]\<rparr>))"

text \<open>Modelled from the spec: the snapshot of a half edge handed to the emitter (3;
  missing from the source files); the latency is the server's start minus the client's,
  when both are present (section 8, first scenario).\<close>

definition toCompletedEdge :: "HalfEdge \<Rightarrow> bool \<Rightarrow> CompletedEdge" where
  "toCompletedEdge h tag =
     \<lparr>edgeKey = key h, client = clientService h, server = serverService h,
      latency = (case clientLatencyStart h of
                   None \<Rightarrow> None
                 | Some c \<Rightarrow> (case serverLatencyStart h of
                                None \<Rightarrow> None
                              | Some s \<Rightarrow> Some (s - c))),
      status = edgeStatus h, proto = edgeProtocol h, incomplete = tag\<rparr>"

subsection \<open>Edge store and capacity governor\<close>

text \<open>Modelled from the spec (4.1): \<open>size()\<close> of the edge store and the lookup of a key
  in it (both missing from the source files).\<close>

definition storeSize :: "Engine \<Rightarrow> nat" where
  "storeSize st = length (store st)"

definition lookupKey :: "CorrelationKey \<Rightarrow> HalfEdge list \<Rightarrow> HalfEdge option" where
  "lookupKey k s = find (\<lambda>h. key h = k) s"

text \<open>Modelled from the spec (4.1): \<open>remove(key)\<close> of the edge store (missing from the
  source files) returns the half edge or absent.\<close>

definition removeKey :: "CorrelationKey \<Rightarrow> Engine \<Rightarrow> HalfEdge option \<times> Engine" where
  "removeKey k st =
     (lookupKey k (store st), st\<lparr>store := filter (\<lambda>h. key h \<noteq> k) (store st)\<rparr>)"

text \<open>Modelled from the spec (4.1): \<open>snapshotExpired(now)\<close> of the edge store (missing from
  the source files), the half edges whose \<open>expiresAt\<close> has passed.\<close>

definition snapshotExpired :: "int \<Rightarrow> Engine \<Rightarrow> HalfEdge list" where
  "snapshotExpired now st = filter (\<lambda>h. expiresAt h < now) (store st)"

text \<open>Modelled from the spec (3): the merge of one side into a half edge (missing from
  the source files). A duplicate arrival overwrites its side's fields; the status and the
  protocol come from whichever side carries them; \<open>complete\<close> holds once both services
  are set.\<close>

definition merge :: "HalfEdge \<Rightarrow> SideUpdate \<Rightarrow> HalfEdge" where
  "merge h u =
     (let h1 = (case side u of
                  Client \<Rightarrow> h\<lparr>clientService := Some (service u),
                               clientLatencyStart := Some (start u)\<rparr>
                | Server \<Rightarrow> h\<lparr>serverService := Some (service u),
                               serverLatencyStart := Some (start u)\<rparr>);
          h2 = (case newStatus u of None \<Rightarrow> h1 | Some c \<Rightarrow> h1\<lparr>edgeStatus := Some c\<rparr>);
          h3 = (case newProtocol u of None \<Rightarrow> h2 | Some pr \<Rightarrow> h2\<lparr>edgeProtocol := pr\<rparr>)
      in h3\<lparr>complete := (clientService h3 \<noteq> None \<and> serverService h3 \<noteq> None)\<rparr>)"

text \<open>Modelled from the spec (3): the half edge created on the first arrival for a key
  (missing from the source files), with no side populated yet.\<close>

definition newHalfEdge :: "CorrelationKey \<Rightarrow> int \<Rightarrow> HalfEdge" where
  "newHalfEdge k expiry =
     \<lparr>key = k, clientService = None, serverService = None, clientLatencyStart = None,
      serverLatencyStart = None, edgeStatus = None, edgeProtocol = Other,
      expiresAt = expiry, complete = False\<rparr>"

text \<open>Modelled from the spec (4.5): the decisions of the capacity governor and its
  \<open>admit\<close> (missing from the source files). The default policy makes room by evicting
  the oldest half edge and then admits the new key; it never rejects.\<close>

datatype admission = Allow | EvictOldest | Reject

definition admit :: "int \<Rightarrow> int \<Rightarrow> admission" where
  "admit currentSize mx = (if currentSize \<ge> mx then EvictOldest else Allow)"

text \<open>Modelled from the spec (4.5, 9): the choice of the half edge to evict (missing
  from the source files), the one with the earliest \<open>expiresAt\<close> and, among equals, the
  first inserted.\<close>

fun oldest :: "HalfEdge list \<Rightarrow> HalfEdge option" where
  "oldest [] = None"
| "oldest (h # hs) =
     (case oldest hs of
        None \<Rightarrow> Some h
      | Some h' \<Rightarrow> if expiresAt h \<le> expiresAt h' then Some h else Some h')"

text \<open>Modelled from the spec (4.5): the eviction (missing from the source files) removes
  the oldest half edge, counts the overflow and emits the half edge as incomplete. An
  empty store has nothing to evict.\<close>

definition evictOldest :: "Processor \<Rightarrow> Engine \<Rightarrow> Engine" where
  "evictOldest p st =
     (case oldest (store st) of
        None \<Rightarrow> st
      | Some h \<Rightarrow>
          (let st1 = snd (removeKey (key h) st)
           in emit p (toCompletedEdge h True) (st1\<lparr>overflow := overflow st1 + 1\<rparr>)))"

text \<open>Modelled from the spec (4.1, 4.5): \<open>upsert\<close> of the edge store (missing from the
  source files) merges into the resident half edge of the key; for a new key at capacity the governor's decision runs first, and the new half
  edge expires at the arrival time plus the wait.\<close>

definition upsert ::
  "Processor \<Rightarrow> int \<Rightarrow> CorrelationKey \<Rightarrow> SideUpdate \<Rightarrow> Engine \<Rightarrow> HalfEdge \<times> bool \<times> Engine" where
  "upsert p now k u st =
     (case lookupKey k (store st) of
        Some h \<Rightarrow>
          (merge h u, True,
           st\<lparr>store := map (\<lambda>h'. if key h' = k then merge h' u else h') (store st)\<rparr>)
      | None \<Rightarrow>
          (let h = merge (newHalfEdge k (now + wait p)) u
           in if int (storeSize st) \<ge> maxItems p
              then (case admit (int (storeSize st)) (maxItems p) of
                      Allow \<Rightarrow> (h, False, st\<lparr>store := store st @ [h]\<rparr>)
                    | EvictOldest \<Rightarrow>
                        (let st1 = evictOldest p st
                         in (h, False, st1\<lparr>store := store st1 @ [h]\<rparr>))
                    | Reject \<Rightarrow> (h, False, st))
              else (h, False, st\<lparr>store := store st @ [h]\<rparr>)))"

subsection \<open>Correlator\<close>

text \<open>Modelled from the spec (4.2, 8): the correlator's reading of a span (missing from
  the source files). A span without trace or span identifier, or without a recognised
  role, is malformed; the key of a span is its trace and span
  identifier, which the client and the server span of one call share.\<close>

definition parseSpan :: "Span \<Rightarrow> (CorrelationKey \<times> SideUpdate) option" where
  "parseSpan sp =
     (case traceID sp of
        None \<Rightarrow> None
      | Some t \<Rightarrow>
          (case spanID sp of
             None \<Rightarrow> None
           | Some i \<Rightarrow>
               (case kind sp of
                  None \<Rightarrow> None
                | Some r \<Rightarrow>
                    Some ((t, i),
                          \<lparr>side = r, service = serviceName sp, start = startTime sp,
                           newStatus = statusCode sp, newProtocol = protocolHint sp\<rparr>))))"

text \<open>Modelled from the spec (4.2): \<open>onSpan\<close> of the correlator (missing from the source
  files). A malformed span is dropped and counted; otherwise the span is merged, and a
  half edge with both sides is removed and emitted. Nothing here fails, so the error
  result of the contract, always nil, is left out.\<close>

definition onSpan :: "Processor \<Rightarrow> int \<Rightarrow> Span \<Rightarrow> Engine \<Rightarrow> Engine" where
  "onSpan p now sp st =
     (case parseSpan sp of
        None \<Rightarrow> st\<lparr>parsingErrors := parsingErrors st + 1\<rparr>
      | Some (k, u) \<Rightarrow>
          (case upsert p now k u st of
             (h, present, st1) \<Rightarrow>
               if complete h
               then emit p (toCompletedEdge h False) (snd (removeKey k st1))
               else st1))"

text \<open>Modelled from the spec (6): the input of the engine (its ingestion loop is missing
  from the source files), a sequence of arrivals, each with its arrival time.\<close>

fun onSpans :: "Processor \<Rightarrow> (int \<times> Span) list \<Rightarrow> Engine \<Rightarrow> Engine" where
  "onSpans p [] st = st"
| "onSpans p ((now, sp) # xs) st = onSpans p xs (onSpan p now sp st)"

subsection \<open>Expiry sweeper\<close>

text \<open>Modelled from the spec (4.3): the work of the sweeper on one expired key (missing
  from the source files): it removes the half edge and emits it tagged incomplete.\<close>

definition sweepKey :: "Processor \<Rightarrow> CorrelationKey \<Rightarrow> Engine \<Rightarrow> Engine" where
  "sweepKey p k st =
     (case removeKey k st of
        (None, st1) \<Rightarrow> st1
      | (Some h, st1) \<Rightarrow> emit p (toCompletedEdge h True) st1)"

text \<open>Modelled from the spec (4.3): one tick of the sweeper (missing from the source
  files). The partition gives each expired key to exactly one worker of the pool, which is
  taken to be non-empty, so a tick does the work once for each half edge of the
  snapshot.\<close>

definition tick :: "Processor \<Rightarrow> int \<Rightarrow> Engine \<Rightarrow> Engine" where
  "tick p now st = fold (sweepKey p) (map key (snapshotExpired now st)) st"

subsection \<open>Observations on a state\<close>

text \<open>What the properties below read off a state: the keys resident in the store, the
  edges emitted for a key with a given tag, and the incomplete edges emitted.\<close>

definition storeKeys :: "Engine \<Rightarrow> CorrelationKey list" where
  "storeKeys st = map key (store st)"

definition emissionsOf :: "CorrelationKey \<Rightarrow> bool \<Rightarrow> Engine \<Rightarrow> CompletedEdge list" where
  "emissionsOf k tag st = filter (\<lambda>e. edgeKey e = k \<and> incomplete e = tag) (emitted st)"

definition incompleteEmissions :: "Engine \<Rightarrow> CompletedEdge list" where
  "incompleteEmissions st = filter incomplete (emitted st)"

text \<open>The correlation key derived from a span, if the span is well formed.\<close>

definition spanKey :: "Span \<Rightarrow> CorrelationKey option" where
  "spanKey sp = map_option fst (parseSpan sp)"

text \<open>The state of a processor that has seen no span.\<close>

definition emptyEngine :: Engine where
  "emptyEngine =
     \<lparr>store = [], emitted = [], requestCount = (\<lambda>_. 0), latencySamples = [],
      incompleteEdges = 0, overflow = 0, parsingErrors = 0\<rparr>"

subsection \<open>The scenario of section 8\<close>

text \<open>Modelled from the spec: a client span of service A starting at time 0 and the
  server span of the same call, of service B, starting 5 ms later with HTTP status 200;
  a configuration with the documented defaults and the HTTP success codes 200 and 301.\<close>

definition clientSpanA :: Span where
  "clientSpanA =
     \<lparr>traceID = Some 1, spanID = Some 1, parentSpanID = None, serviceName = ''A'',
      kind = Some Client, startTime = 0, endTime = 7 * Millisecond, statusCode = None,
      protocolHint = None\<rparr>"

definition serverSpanB :: Span where
  "serverSpanB =
     \<lparr>traceID = Some 1, spanID = Some 1, parentSpanID = None, serviceName = ''B'',
      kind = Some Server, startTime = 5 * Millisecond, endTime = 6 * Millisecond,
      statusCode = Some 200, protocolHint = Some HTTP\<rparr>"

definition scenarioConfig :: Config where
  "scenarioConfig =
     \<lparr>Wait = DefaultWait, MaxItems = DefaultMaxItems, Workers = DefaultWorkers,
      SuccessCodes = Some \<lparr>http = [200, 301], grpc = [0]\<rparr>\<rparr>"

section \<open>Properties of the factory\<close>

text \<open>
  C5. The documented defaults are the values of the constants: \<open>DefaultWait\<close> is ten
  seconds (10,000,000,000 nanoseconds, within \<^verbatim>\<open>int64\<close>), \<open>DefaultMaxItems\<close> is 10,000 and
  \<open>DefaultWorkers\<close> is 10.
\<close>

theorem default_constants:
  "DefaultWait = 10 * Second \<and> DefaultWait = 10000000000 \<and> fitsInt64 DefaultWait
   \<and> DefaultMaxItems = 10000 \<and> DefaultWorkers = 10"
  by (simp add: DefaultWait_def DefaultMaxItems_def DefaultWorkers_def Second_def
      Millisecond_def Microsecond_def Nanosecond_def fitsInt64_def)

text \<open>
  C6, as stated, fails: the configuration \<open>createDefaultConfig\<close> returns does not carry
  the documented defaults in its \<open>Wait\<close>, \<open>MaxItems\<close> and \<open>Workers\<close> fields.
\<close>

theorem createDefaultConfig_lacks_defaults:
  "createDefaultConfig = ConfigPtr (Some zeroConfig)
   \<and> Wait zeroConfig \<noteq> DefaultWait
   \<and> MaxItems zeroConfig \<noteq> DefaultMaxItems
   \<and> Workers zeroConfig \<noteq> DefaultWorkers"
  by (simp add: createDefaultConfig_def zeroConfig_def DefaultWait_def DefaultMaxItems_def
      DefaultWorkers_def Second_def Millisecond_def Microsecond_def Nanosecond_def)

text \<open>
  C6, amended. \<open>createDefaultConfig\<close> returns a pointer to the zero-valued \<open>Config\<close>: its
  \<open>Wait\<close>, \<open>MaxItems\<close> and \<open>Workers\<close> fields are 0 and its \<open>SuccessCodes\<close> is nil. The
  documented defaults are the values of the constants \<open>DefaultWait\<close>, \<open>DefaultMaxItems\<close>
  and \<open>DefaultWorkers\<close>.
\<close>

theorem createDefaultConfig_zero:
  "createDefaultConfig = ConfigPtr (Some zeroConfig)
   \<and> Wait zeroConfig = 0 \<and> MaxItems zeroConfig = 0 \<and> Workers zeroConfig = 0
   \<and> SuccessCodes zeroConfig = None
   \<and> DefaultWait = 10 * Second \<and> DefaultMaxItems = 10000 \<and> DefaultWorkers = 10"
  by (simp add: createDefaultConfig_def zeroConfig_def DefaultWait_def DefaultMaxItems_def
      DefaultWorkers_def)

text \<open>
  C7. For every context, settings, \<^verbatim>\<open>*Config\<close> configuration and next consumer on which
  \<^verbatim>\<open>newProcessor\<close> returns, \<open>createTracesProcessor\<close> returns that processor with a nil error;
  and on no input at all does it return a non-nil error.
\<close>

theorem createTracesProcessor_nil_error:
  "(np nc c = Returns p \<longrightarrow>
      createTracesProcessor np ctx settings (ConfigPtr c) nc = Returns (p, None))
   \<and> createTracesProcessor np ctx settings cfg nc \<noteq> Returns (q, Some e)"
  by (cases cfg) (auto simp: createTracesProcessor_def split: outcome.splits)

theorem createTracesProcessor_nil_error_witness:
  "createTracesProcessor (\<lambda>n c. Returns (n, c)) () () (ConfigPtr (Some zeroConfig)) (7::nat)
     = Returns ((7, Some zeroConfig), None)
   \<and> createTracesProcessor (\<lambda>n c. Returns (n, c)) () () (OtherConfig ''otlp'') (7::nat)
     \<noteq> Returns ((7, None), Some (Error ''e''))"
  using createTracesProcessor_nil_error
    [of "\<lambda>n c. Returns (n, c)" "7::nat" "Some zeroConfig" "(7, Some zeroConfig)" "()" "()"
        "OtherConfig ''otlp''" "(7, None)" "Error ''e''"]
  by simp

text \<open>
  C9. The type assertion of \<open>createTracesProcessor\<close> is unchecked: on a configuration
  that is a \<^verbatim>\<open>*Config\<close> it succeeds, and the call returns what \<^verbatim>\<open>newProcessor\<close> builds from
  that very configuration and the next consumer, with a nil error; on the configuration
  made by \<open>createDefaultConfig\<close> the assertion does not panic; on the nil interface and
  on a configuration of another type the call panics.
\<close>

theorem createTracesProcessor_assertion:
  "assertConfigPtr (ConfigPtr c) = Returns c
   \<and> createTracesProcessor np ctx settings (ConfigPtr c) nc
       = (case np nc c of Panics \<Rightarrow> Panics | Returns p \<Rightarrow> Returns (p, None))
   \<and> assertConfigPtr createDefaultConfig = Returns (Some zeroConfig)
   \<and> createTracesProcessor np ctx settings createDefaultConfig nc
       = (case np nc (Some zeroConfig) of Panics \<Rightarrow> Panics | Returns p \<Rightarrow> Returns (p, None))
   \<and> createTracesProcessor np ctx settings NilInterface nc = Panics
   \<and> createTracesProcessor np ctx settings (OtherConfig t) nc = Panics"
  by (simp add: createTracesProcessor_def createDefaultConfig_def)

text \<open>
  C10. The factory \<open>NewFactory\<close> returns registers the processor under the type
  identifier \<open>TypeStr\<close>, the string "service\_graphs", whatever \<^verbatim>\<open>newProcessor\<close> is: its
  type is that identifier, its traces processor is made by \<open>createTracesProcessor\<close>, at
  the undefined stability level, and its default configuration by \<open>createDefaultConfig\<close>.
\<close>

theorem NewFactory_type:
  "cfgType (NewFactory np) = TypeStr
   \<and> cfgType (NewFactory np) = ''service_graphs''
   \<and> createTracesFunc (NewFactory np) = Some (createTracesProcessor np)
   \<and> tracesStabilityLevel (NewFactory np) = StabilityLevelUndefined
   \<and> createDefaultConfigFunc (NewFactory np) () = createDefaultConfig"
  by (simp add: NewFactory_def processor_NewFactory_def TypeStr_def)

text \<open>
  C8, which the code does not meet. The fields \<open>http\<close> and \<open>grpc\<close> of \<^verbatim>\<open>successCodes\<close> are
  unexported, so the decoder their tags address passes over both: decoding any
  \<^verbatim>\<open>success_codes\<close> section leaves the struct as it was. Decoding the codes 200 and 301 for
  HTTP and 0 for gRPC into the default configuration gives a \<open>SuccessCodes\<close> with both
  slices empty. A field of the same tag with an exported name receives its codes.
\<close>

theorem success_codes_not_decoded:
  "decodeSuccessCodes raw sc = sc
   \<and> SuccessCodes
        (decodeSuccessCodesKey (Some [(''http'', [200, 301]), (''grpc'', [0])]) zeroConfig)
       = Some \<lparr>http = [], grpc = []\<rparr>
   \<and> decodeField \<lparr>goName = ''Http'', mapstructureTag = ''http''\<rparr>
        [(''http'', [200, 301]), (''grpc'', [0])] [] = [200, 301]"
  by (simp add: decodeSuccessCodes_def decodeSuccessCodesKey_def decodeField_def
      isExported_def httpField_def grpcField_def zeroConfig_def zeroSuccessCodes_def)

section \<open>Properties of the correlation engine\<close>

subsection \<open>Store and sweeper\<close>

lemmas scenario_defs =
  scenarioConfig_def clientSpanA_def serverSpanB_def emptyEngine_def newEngine_def
  DefaultWait_def DefaultMaxItems_def DefaultWorkers_def Second_def Millisecond_def
  Microsecond_def Nanosecond_def

lemmas engine_defs =
  onSpan_def upsert_def parseSpan_def spanKey_def lookupKey_def storeSize_def storeKeys_def
  merge_def newHalfEdge_def admit_def evictOldest_def removeKey_def emit_def
  toCompletedEdge_def isSuccess_def emissionsOf_def incompleteEmissions_def
  snapshotExpired_def tick_def sweepKey_def

lemma emit_fields:
  "store (emit p e st) = store st"
  "emitted (emit p e st) = emitted st @ [e]"
  "overflow (emit p e st) = overflow st"
  "parsingErrors (emit p e st) = parsingErrors st"
  by (simp_all add: emit_def Let_def split: option.splits)

lemma toCompletedEdge_fields:
  "edgeKey (toCompletedEdge h tag) = key h"
  "incomplete (toCompletedEdge h tag) = tag"
  "client (toCompletedEdge h tag) = clientService h"
  "server (toCompletedEdge h tag) = serverService h"
  by (simp_all add: toCompletedEdge_def)

lemma merge_fields:
  "key (merge h u) = key h"
  "expiresAt (merge h u) = expiresAt h"
  "clientService (merge h u) = (case side u of Client \<Rightarrow> Some (service u) | Server \<Rightarrow> clientService h)"
  "serverService (merge h u) = (case side u of Server \<Rightarrow> Some (service u) | Client \<Rightarrow> serverService h)"
  "complete (merge h u) =
     (case side u of Client \<Rightarrow> serverService h \<noteq> None | Server \<Rightarrow> clientService h \<noteq> None)"
  by (simp_all add: merge_def Let_def split: role.splits option.splits)

lemma lookupKey_distinct:
  "distinct (map key s) \<Longrightarrow> h \<in> set s \<Longrightarrow> lookupKey (key h) s = Some h"
  unfolding lookupKey_def by (induction s) (auto simp: image_iff)

lemma lookupKey_None: "lookupKey k s = None \<longleftrightarrow> k \<notin> set (map key s)"
  unfolding lookupKey_def by (induction s) auto

lemma lookupKey_Some: "lookupKey k s = Some h \<Longrightarrow> h \<in> set s \<and> key h = k"
  unfolding lookupKey_def by (induction s) (auto split: if_splits)

lemma filter_key_distinct:
  "distinct (map key s) \<Longrightarrow> h \<in> set s \<Longrightarrow> filter (\<lambda>h'. key h' = key h) s = [h]"
  by (induction s) (auto simp: image_iff filter_empty_conv)

lemma sweepKey_resident:
  assumes "distinct (map key (store st))" "h \<in> set (store st)"
  shows "store (sweepKey p (key h) st) = filter (\<lambda>h'. key h' \<noteq> key h) (store st)"
    and "emitted (sweepKey p (key h) st) = emitted st @ [toCompletedEdge h True]"
  using lookupKey_distinct[OF assms]
  by (simp_all add: sweepKey_def removeKey_def emit_fields)

lemma fold_sweepKey:
  "distinct (map key (store st)) \<Longrightarrow> set hs \<subseteq> set (store st) \<Longrightarrow> distinct (map key hs) \<Longrightarrow>
   store (fold (sweepKey p) (map key hs) st) = filter (\<lambda>h. key h \<notin> key ` set hs) (store st)
   \<and> emitted (fold (sweepKey p) (map key hs) st) = emitted st @ map (\<lambda>h. toCompletedEdge h True) hs"
proof (induction hs arbitrary: st)
  case Nil
  then show ?case by simp
next
  case (Cons h hs)
  let ?st1 = "sweepKey p (key h) st"
  have h: "h \<in> set (store st)" using Cons.prems by simp
  have s1: "store ?st1 = filter (\<lambda>h'. key h' \<noteq> key h) (store st)"
    and e1: "emitted ?st1 = emitted st @ [toCompletedEdge h True]"
    using sweepKey_resident[OF Cons.prems(1) h] by simp_all
  have d1: "distinct (map key (store ?st1))"
    using Cons.prems(1) by (simp add: s1 distinct_map_filter)
  have sub: "set hs \<subseteq> set (store ?st1)"
  proof
    fix x assume x: "x \<in> set hs"
    then have "key x \<noteq> key h" using Cons.prems(3) by (auto simp: image_iff)
    then show "x \<in> set (store ?st1)" using x Cons.prems(2) by (auto simp: s1)
  qed
  have d2: "distinct (map key hs)" using Cons.prems(3) by simp
  from Cons.IH[OF d1 sub d2] show ?case
    by (auto simp: s1 e1 intro: filter_cong)
qed

lemma newEngine_fields:
  "wait (newEngine cfg) = Wait cfg"
  "maxItems (newEngine cfg) = MaxItems cfg"
  "workers (newEngine cfg) = Workers cfg"
  by (simp_all add: newEngine_def)

lemma tick_effect:
  assumes d: "distinct (map key (store st))"
  shows "store (tick p now st) = filter (\<lambda>h. \<not> expiresAt h < now) (store st)"
    and "emitted (tick p now st)
           = emitted st @ map (\<lambda>h. toCompletedEdge h True) (snapshotExpired now st)"
proof -
  let ?E = "snapshotExpired now st"
  have sub: "set ?E \<subseteq> set (store st)" by (auto simp: snapshotExpired_def)
  have dE: "distinct (map key ?E)"
    using d by (simp add: snapshotExpired_def distinct_map_filter)
  note f = fold_sweepKey[OF d sub dE, of p]
  have inj: "inj_on key (set (store st))" using d by (simp add: distinct_map)
  have "filter (\<lambda>h. key h \<notin> key ` set ?E) (store st)
          = filter (\<lambda>h. \<not> expiresAt h < now) (store st)"
  proof (rule filter_cong[OF refl])
    fix x assume x: "x \<in> set (store st)"
    show "(key x \<notin> key ` set ?E) = (\<not> expiresAt x < now)"
    proof
      assume "key x \<notin> key ` set ?E"
      then show "\<not> expiresAt x < now" using x by (auto simp: snapshotExpired_def)
    next
      assume n: "\<not> expiresAt x < now"
      show "key x \<notin> key ` set ?E"
      proof
        assume "key x \<in> key ` set ?E"
        then obtain y where y: "y \<in> set ?E" "key x = key y" by auto
        then have "y \<in> set (store st)" "expiresAt y < now" by (auto simp: snapshotExpired_def)
        with inj x y(2) have "x = y" by (auto dest: inj_onD)
        with n \<open>expiresAt y < now\<close> show False by simp
      qed
    qed
  qed
  with f show "store (tick p now st) = filter (\<lambda>h. \<not> expiresAt h < now) (store st)"
    by (simp add: tick_def)
  from f show "emitted (tick p now st)
           = emitted st @ map (\<lambda>h. toCompletedEdge h True) (snapshotExpired now st)"
    by (simp add: tick_def)
qed

lemma length_filter_split_key:
  assumes "distinct (map key s)" "h \<in> set s" "P h"
  shows "length (filter P s) = 1 + length (filter (\<lambda>h'. key h' \<noteq> key h \<and> P h') s)"
proof -
  have d: "distinct (map key (filter P s))" using assms(1) by (simp add: distinct_map_filter)
  have hin: "h \<in> set (filter P s)" using assms by simp
  have "length (filter P s)
          = length (filter (\<lambda>h'. key h' = key h) (filter P s))
            + length (filter (\<lambda>h'. \<not> key h' = key h) (filter P s))"
    by (rule sum_length_filter_compl[symmetric])
  also have "filter (\<lambda>h'. key h' = key h) (filter P s) = [h]"
    by (rule filter_key_distinct[OF d hin])
  also have "filter (\<lambda>h'. \<not> key h' = key h) (filter P s)
               = filter (\<lambda>h'. key h' \<noteq> key h \<and> P h') s"
    by (simp add: conj_commute)
  finally show ?thesis by simp
qed

text \<open>
  C3. Let a half edge with exactly one side populated be resident, created at time \<open>T\<close>
  (so that it expires at \<open>T + Wait\<close>), and let the sweeper run at a time after
  \<open>T + Wait\<close>. Then the tick evicts it, hands the emitter exactly one more incomplete
  edge for its key, with one side absent, and no completed one; and the size of the store
  drops by one for this half edge, besides one for every other expired half edge.
\<close>

theorem tick_timeout:
  assumes "distinct (storeKeys st)"
    and "h \<in> set (store st)"
    and "(clientService h = None) \<noteq> (serverService h = None)"
    and "expiresAt h = T + Wait cfg"
    and "T + Wait cfg < now"
  shows "key h \<notin> set (storeKeys (tick (newEngine cfg) now st))
    \<and> emissionsOf (key h) True (tick (newEngine cfg) now st)
        = emissionsOf (key h) True st @ [toCompletedEdge h True]
    \<and> emissionsOf (key h) False (tick (newEngine cfg) now st) = emissionsOf (key h) False st
    \<and> (client (toCompletedEdge h True) = None) \<noteq> (server (toCompletedEdge h True) = None)
    \<and> storeSize (tick (newEngine cfg) now st) + 1
        + length (filter (\<lambda>h'. key h' \<noteq> key h \<and> expiresAt h' < now) (store st))
        = storeSize st"
proof -
  let ?p = "newEngine cfg"
  have d: "distinct (map key (store st))" using assms(1) by (simp add: storeKeys_def)
  have ex: "expiresAt h < now" using assms(4,5) by simp
  note t = tick_effect[OF d, of ?p now]
  have hE: "h \<in> set (snapshotExpired now st)" using assms(2) ex by (simp add: snapshotExpired_def)
  have dE: "distinct (map key (snapshotExpired now st))"
    using d by (simp add: snapshotExpired_def distinct_map_filter)
  have 1: "key h \<notin> set (storeKeys (tick ?p now st))"
  proof
    assume "key h \<in> set (storeKeys (tick ?p now st))"
    then obtain y where y: "y \<in> set (store st)" "\<not> expiresAt y < now" "key y = key h"
      by (auto simp: storeKeys_def t)
    from d have "inj_on key (set (store st))" by (simp add: distinct_map)
    with y(1,3) assms(2) have "y = h" by (auto dest: inj_onD)
    with y(2) ex show False by simp
  qed
  have fk: "filter (\<lambda>h'. key h' = key h) (snapshotExpired now st) = [h]"
    by (rule filter_key_distinct[OF dE hE])
  have 2: "emissionsOf (key h) True (tick ?p now st)
             = emissionsOf (key h) True st @ [toCompletedEdge h True]"
    using fk by (simp add: emissionsOf_def t filter_map o_def toCompletedEdge_fields)
  have 3: "emissionsOf (key h) False (tick ?p now st) = emissionsOf (key h) False st"
    by (simp add: emissionsOf_def t filter_map o_def toCompletedEdge_fields)
  have 4: "(client (toCompletedEdge h True) = None) \<noteq> (server (toCompletedEdge h True) = None)"
    using assms(3) by (simp add: toCompletedEdge_fields)
  have "length (filter (\<lambda>h. \<not> expiresAt h < now) (store st))
          + length (filter (\<lambda>h. expiresAt h < now) (store st)) = length (store st)"
    using sum_length_filter_compl[of "\<lambda>h. expiresAt h < now" "store st"] by simp
  moreover have "length (filter (\<lambda>h. expiresAt h < now) (store st))
          = 1 + length (filter (\<lambda>h'. key h' \<noteq> key h \<and> expiresAt h' < now) (store st))"
    using length_filter_split_key[of "store st" h "\<lambda>h. expiresAt h < now"] d assms(2) ex
    by simp
  ultimately have 5: "storeSize (tick ?p now st) + 1
        + length (filter (\<lambda>h'. key h' \<noteq> key h \<and> expiresAt h' < now) (store st))
        = storeSize st"
    by (simp add: storeSize_def t)
  from 1 2 3 4 5 show ?thesis by blast
qed

lemma lone_client_store:
  "store (onSpan (newEngine scenarioConfig) 0 clientSpanA emptyEngine)
     = [\<lparr>key = (1, 1), clientService = Some ''A'', serverService = None,
         clientLatencyStart = Some 0, serverLatencyStart = None, edgeStatus = None,
         edgeProtocol = Other, expiresAt = 10000000000, complete = False\<rparr>]"
  by (simp add: engine_defs scenario_defs Let_def)

theorem tick_timeout_witness:
  "distinct (storeKeys (onSpan (newEngine scenarioConfig) 0 clientSpanA emptyEngine))
   \<and> map expiresAt (store (onSpan (newEngine scenarioConfig) 0 clientSpanA emptyEngine))
       = [0 + Wait scenarioConfig]
   \<and> 0 + Wait scenarioConfig < 10 * Second + 1
   \<and> storeSize (onSpan (newEngine scenarioConfig) 0 clientSpanA emptyEngine) = 1
   \<and> storeSize (tick (newEngine scenarioConfig) (10 * Second + 1)
        (onSpan (newEngine scenarioConfig) 0 clientSpanA emptyEngine)) = 0
   \<and> length (emissionsOf (1, 1) True (tick (newEngine scenarioConfig) (10 * Second + 1)
        (onSpan (newEngine scenarioConfig) 0 clientSpanA emptyEngine))) = 1"
proof -
  let ?st = "onSpan (newEngine scenarioConfig) 0 clientSpanA emptyEngine"
  let ?h = "\<lparr>key = (1, 1), clientService = Some ''A'', serverService = None,
         clientLatencyStart = Some 0, serverLatencyStart = None, edgeStatus = None,
         edgeProtocol = Other, expiresAt = 10000000000, complete = False\<rparr>"
  have h1: "distinct (storeKeys ?st)" by (simp add: storeKeys_def lone_client_store)
  have h2: "?h \<in> set (store ?st)" by (simp add: lone_client_store)
  have h3: "(clientService ?h = None) \<noteq> (serverService ?h = None)" by simp
  have h4: "expiresAt ?h = 0 + Wait scenarioConfig" by (simp add: scenario_defs)
  have h5: "0 + Wait scenarioConfig < 10 * Second + 1" by (simp add: scenario_defs)
  have e: "\<And>k. emissionsOf k True ?st = []"
    by (simp add: engine_defs scenario_defs Let_def)
  show ?thesis
    using h1 h4 h5 tick_timeout [OF h1 h2 h3 h4 h5]
    by (simp add: e storeSize_def lone_client_store)
qed

subsection \<open>One arrival\<close>

lemma filter_neq_map_merge:
  "filter (\<lambda>h'. key h' \<noteq> k) (map (\<lambda>h'. if key h' = k then merge h' u else h') s)
     = filter (\<lambda>h'. key h' \<noteq> k) s"
  by (induction s) (auto simp: merge_fields)

lemma lookupKey_map_merge:
  "lookupKey k (map (\<lambda>h'. if key h' = k then merge h' u else h') s)
     = map_option (\<lambda>h. merge h u) (lookupKey k s)"
  unfolding lookupKey_def by (induction s) (auto simp: merge_fields)

lemma keys_map_merge:
  "map (key \<circ> (\<lambda>h'. if key h' = k then merge h' u else h')) s = map key s"
  by (induction s) (auto simp: merge_fields)

lemma onSpan_present:
  assumes "parseSpan sp = Some (k, u)" "lookupKey k (store st) = Some h"
  shows "onSpan p now sp st =
     (if complete (merge h u)
      then emit p (toCompletedEdge (merge h u) False)
             (st\<lparr>store := filter (\<lambda>h'. key h' \<noteq> k) (store st)\<rparr>)
      else st\<lparr>store := map (\<lambda>h'. if key h' = k then merge h' u else h') (store st)\<rparr>)"
  using assms by (simp add: onSpan_def upsert_def removeKey_def filter_neq_map_merge)

lemma new_not_complete: "\<not> complete (merge (newHalfEdge k x) u)"
  by (simp add: merge_fields newHalfEdge_def split: role.splits)

lemma onSpan_absent:
  assumes "parseSpan sp = Some (k, u)" "lookupKey k (store st) = None"
  shows "onSpan p now sp st =
     (let st1 = (if int (storeSize st) \<ge> maxItems p then evictOldest p st else st)
      in st1\<lparr>store := store st1 @ [merge (newHalfEdge k (now + wait p)) u]\<rparr>)"
  using assms by (simp add: onSpan_def upsert_def admit_def Let_def new_not_complete)

lemma oldest_Some_in: "oldest s = Some h \<Longrightarrow> h \<in> set s"
  by (induction s arbitrary: h) (auto split: option.splits if_splits)

lemma oldest_Nil: "oldest s = None \<longleftrightarrow> s = []"
  by (induction s) (auto split: option.splits)

lemma oldest_in: "s \<noteq> [] \<Longrightarrow> \<exists>h. oldest s = Some h \<and> h \<in> set s"
  using oldest_Nil[of s] oldest_Some_in[of s] by (cases "oldest s") auto

lemma evictOldest_Some:
  assumes "oldest (store st) = Some h"
  shows "store (evictOldest p st) = filter (\<lambda>h'. key h' \<noteq> key h) (store st)"
    and "emitted (evictOldest p st) = emitted st @ [toCompletedEdge h True]"
    and "overflow (evictOldest p st) = overflow st + 1"
  using assms by (simp_all add: evictOldest_def removeKey_def Let_def emit_fields)

lemma length_filter_neq_key:
  assumes "distinct (map key s)" "h \<in> set s"
  shows "length (filter (\<lambda>h'. key h' \<noteq> key h) s) + 1 = length s"
proof -
  have "length (filter (\<lambda>h'. key h' = key h) s) + length (filter (\<lambda>h'. \<not> key h' = key h) s)
          = length s"
    by (rule sum_length_filter_compl)
  then show ?thesis using filter_key_distinct[OF assms] by simp
qed

lemma lookupKey_append_fresh:
  "k \<notin> key ` set s \<Longrightarrow> key h = k \<Longrightarrow> lookupKey k (s @ [h]) = Some h"
  unfolding lookupKey_def by (induction s) auto

lemma onSpan_key_effect:
  assumes ps: "parseSpan sp = Some (k, u)" and d: "distinct (map key (store st))"
  shows "distinct (map key (store (onSpan p now sp st)))
    \<and> emissionsOf k True (onSpan p now sp st) = emissionsOf k True st
    \<and> (let h' = merge (case lookupKey k (store st) of
                          Some h \<Rightarrow> h | None \<Rightarrow> newHalfEdge k (now + wait p)) u
       in if complete h'
          then lookupKey k (store (onSpan p now sp st)) = None
             \<and> emissionsOf k False (onSpan p now sp st)
                 = emissionsOf k False st @ [toCompletedEdge h' False]
          else lookupKey k (store (onSpan p now sp st)) = Some h'
             \<and> emissionsOf k False (onSpan p now sp st) = emissionsOf k False st)"
proof (cases "lookupKey k (store st)")
  case (Some h)
  note os = onSpan_present[OF ps Some, of p now]
  show ?thesis
  proof (cases "complete (merge h u)")
    case True
    have "lookupKey k (filter (\<lambda>h'. key h' \<noteq> k) (store st)) = None"
      by (auto simp: lookupKey_None)
    moreover have "key (merge h u) = k"
      using lookupKey_Some[OF Some] by (simp add: merge_fields)
    ultimately show ?thesis using True d Some
      by (simp add: os emit_fields emissionsOf_def toCompletedEdge_fields
          distinct_map_filter)
  next
    case False
    then show ?thesis using d Some
      by (simp add: os emissionsOf_def keys_map_merge lookupKey_map_merge)
  qed
next
  case None
  note os = onSpan_absent[OF ps None, of p now]
  let ?h = "merge (newHalfEdge k (now + wait p)) u"
  have kh: "key ?h = k" by (simp add: merge_fields newHalfEdge_def)
  have knot: "k \<notin> key ` set (store st)" using None by (simp add: lookupKey_None)
  show ?thesis
  proof (cases "int (storeSize st) \<ge> maxItems p \<and> store st \<noteq> []")
    case True
    then obtain h0 where h0: "oldest (store st) = Some h0" "h0 \<in> set (store st)"
      using oldest_in by blast
    have ne: "key h0 \<noteq> k" using h0(2) knot by auto
    note ev = evictOldest_Some[OF h0(1), of p]
    have lk: "lookupKey k (filter (\<lambda>h'. key h' \<noteq> key h0) (store st) @ [?h]) = Some ?h"
      using knot kh by (intro lookupKey_append_fresh) auto
    have knot': "k \<notin> key ` {x \<in> set (store st). key x \<noteq> key h0}"
      using knot by auto
    show ?thesis using True d None knot' ne kh lk
      by (simp add: os ev Let_def emissionsOf_def toCompletedEdge_fields new_not_complete
          distinct_map_filter)
  next
    case False
    then have eq: "(if int (storeSize st) \<ge> maxItems p then evictOldest p st else st) = st"
      by (auto simp: evictOldest_def)
    have lk: "lookupKey k (store st @ [?h]) = Some ?h"
      using knot kh by (intro lookupKey_append_fresh) auto
    show ?thesis using d None knot kh lk
      by (simp add: os eq Let_def emissionsOf_def new_not_complete)
  qed
qed

subsection \<open>Pairing\<close>

lemma parseSpan_of_key:
  assumes "spanKey sp = Some k" "kind sp = Some r"
  shows "\<exists>u. parseSpan sp = Some (k, u) \<and> side u = r \<and> service u = serviceName sp"
  using assms by (auto simp: spanKey_def parseSpan_def split: option.splits)

lemma pair_effect:
  assumes d: "distinct (map key (store st))"
    and pa: "parseSpan a = Some (k, ua)" and pb: "parseSpan b = Some (k, ub)"
    and sides: "side ua \<noteq> side ub"
  shows "length (emissionsOf k False (onSpan p t2 b (onSpan p t1 a st)))
           = length (emissionsOf k False st) + 1
    \<and> emissionsOf k True (onSpan p t2 b (onSpan p t1 a st)) = emissionsOf k True st
    \<and> (k \<notin> set (storeKeys st) \<longrightarrow>
         emissionsOf k False (onSpan p t2 b (onSpan p t1 a st))
           = emissionsOf k False st
             @ [toCompletedEdge (merge (merge (newHalfEdge k (t1 + wait p)) ua) ub) False])"
proof -
  let ?st1 = "onSpan p t1 a st"
  let ?h0 = "case lookupKey k (store st) of Some h \<Rightarrow> h | None \<Rightarrow> newHalfEdge k (t1 + wait p)"
  let ?h1 = "merge ?h0 ua"
  note e1 = onSpan_key_effect[OF pa d, of p t1]
  then have d1: "distinct (map key (store ?st1))" by simp
  note e2 = onSpan_key_effect[OF pb d1, of p t2]
  have fresh: "k \<notin> set (storeKeys st) \<Longrightarrow> ?h0 = newHalfEdge k (t1 + wait p)"
    using lookupKey_None[of k "store st"] by (simp add: storeKeys_def)
  show ?thesis
  proof (cases "complete ?h1")
    case True
    then have l1: "lookupKey k (store ?st1) = None"
      and f1: "emissionsOf k False ?st1 = emissionsOf k False st @ [toCompletedEdge ?h1 False]"
      and t1: "emissionsOf k True ?st1 = emissionsOf k True st"
      using e1 by (simp_all add: Let_def)
    have nf: "k \<in> set (storeKeys st)"
    proof (rule ccontr)
      assume "k \<notin> set (storeKeys st)"
      then have "?h0 = newHalfEdge k (t1 + wait p)" by (rule fresh)
      with True show False by (simp add: new_not_complete)
    qed
    from e2 l1 f1 t1 nf show ?thesis
      by (simp add: Let_def new_not_complete)
  next
    case False
    then have l1: "lookupKey k (store ?st1) = Some ?h1"
      and f1: "emissionsOf k False ?st1 = emissionsOf k False st"
      and t1: "emissionsOf k True ?st1 = emissionsOf k True st"
      using e1 by (simp_all add: Let_def)
    have c2: "complete (merge ?h1 ub)"
      using sides by (cases "side ua"; cases "side ub") (simp_all add: merge_fields)
    from e2 l1 f1 t1 c2 fresh show ?thesis
      by (auto simp add: Let_def)
  qed
qed

text \<open>
  C1. Let a client span and a server span derive the same key \<open>k\<close>. Whichever arrives
  first, and whenever, the two arrivals hand the emitter exactly one more completed edge
  for \<open>k\<close> and no incomplete one. If no half edge for \<open>k\<close> was resident before, that edge
  pairs the client's service with the server's.
\<close>

theorem no_duplicate_edges:
  assumes "distinct (storeKeys st)"
    and "spanKey c = Some k" and "spanKey s = Some k"
    and "kind c = Some Client" and "kind s = Some Server"
  shows "length (emissionsOf k False (onSpan p t2 s (onSpan p t1 c st)))
           = length (emissionsOf k False st) + 1
    \<and> emissionsOf k True (onSpan p t2 s (onSpan p t1 c st)) = emissionsOf k True st
    \<and> length (emissionsOf k False (onSpan p t2 c (onSpan p t1 s st)))
           = length (emissionsOf k False st) + 1
    \<and> emissionsOf k True (onSpan p t2 c (onSpan p t1 s st)) = emissionsOf k True st
    \<and> (k \<notin> set (storeKeys st) \<longrightarrow>
         map client (emissionsOf k False (onSpan p t2 s (onSpan p t1 c st)))
           = map client (emissionsOf k False st) @ [Some (serviceName c)]
       \<and> map server (emissionsOf k False (onSpan p t2 s (onSpan p t1 c st)))
           = map server (emissionsOf k False st) @ [Some (serviceName s)]
       \<and> map client (emissionsOf k False (onSpan p t2 c (onSpan p t1 s st)))
           = map client (emissionsOf k False st) @ [Some (serviceName c)]
       \<and> map server (emissionsOf k False (onSpan p t2 c (onSpan p t1 s st)))
           = map server (emissionsOf k False st) @ [Some (serviceName s)])"
proof -
  have d: "distinct (map key (store st))" using assms(1) by (simp add: storeKeys_def)
  obtain uc where uc: "parseSpan c = Some (k, uc)" "side uc = Client" "service uc = serviceName c"
    using parseSpan_of_key[OF assms(2,4)] by blast
  obtain us where us: "parseSpan s = Some (k, us)" "side us = Server" "service us = serviceName s"
    using parseSpan_of_key[OF assms(3,5)] by blast
  have cs: "side uc \<noteq> side us" and sc: "side us \<noteq> side uc" using uc(2) us(2) by simp_all
  note a = pair_effect[OF d uc(1) us(1) cs, of p t2 t1]
  note b = pair_effect[OF d us(1) uc(1) sc, of p t2 t1]
  from a b uc(2,3) us(2,3) show ?thesis
    by (simp add: toCompletedEdge_fields merge_fields)
qed

theorem no_duplicate_edges_witness:
  "distinct (storeKeys emptyEngine)
   \<and> spanKey clientSpanA = Some (1, 1) \<and> spanKey serverSpanB = Some (1, 1)
   \<and> kind clientSpanA = Some Client \<and> kind serverSpanB = Some Server
   \<and> length (emissionsOf (1, 1) False
        (onSpan (newEngine scenarioConfig) (5 * Millisecond) serverSpanB
          (onSpan (newEngine scenarioConfig) 0 clientSpanA emptyEngine))) = 1
   \<and> length (emissionsOf (1, 1) False
        (onSpan (newEngine scenarioConfig) (5 * Millisecond) clientSpanA
          (onSpan (newEngine scenarioConfig) 0 serverSpanB emptyEngine))) = 1
   \<and> map server (emissionsOf (1, 1) False
        (onSpan (newEngine scenarioConfig) (5 * Millisecond) clientSpanA
          (onSpan (newEngine scenarioConfig) 0 serverSpanB emptyEngine))) = [Some ''B'']"
proof -
  have h1: "distinct (storeKeys emptyEngine)" by (simp add: storeKeys_def emptyEngine_def)
  have h2: "spanKey clientSpanA = Some (1, 1)"
    by (simp add: spanKey_def parseSpan_def clientSpanA_def)
  have h3: "spanKey serverSpanB = Some (1, 1)"
    by (simp add: spanKey_def parseSpan_def serverSpanB_def)
  have h4: "kind clientSpanA = Some Client" by (simp add: clientSpanA_def)
  have h5: "kind serverSpanB = Some Server" by (simp add: serverSpanB_def)
  have e: "\<And>k tag. emissionsOf k tag emptyEngine = []" "storeKeys emptyEngine = []"
    "serviceName serverSpanB = ''B''"
    by (simp_all add: emissionsOf_def emptyEngine_def storeKeys_def serverSpanB_def)
  show ?thesis
    using h1 h2 h3 h4 h5
      no_duplicate_edges [OF h1 h2 h3 h4 h5, of "newEngine scenarioConfig" "5 * Millisecond" 0]
    by (simp add: e)
qed

subsection \<open>Capacity\<close>

lemma onSpan_fresh:
  assumes ps: "parseSpan sp = Some (k, u)"
    and fresh: "k \<notin> set (storeKeys st)"
    and d: "distinct (storeKeys st)"
    and pos: "0 < maxItems p"
    and le: "int (storeSize st) \<le> maxItems p"
  shows "distinct (storeKeys (onSpan p now sp st))
    \<and> set (storeKeys (onSpan p now sp st)) \<subseteq> insert k (set (storeKeys st))
    \<and> storeSize (onSpan p now sp st) = min (storeSize st + 1) (nat (maxItems p))
    \<and> length (incompleteEmissions (onSpan p now sp st)) + storeSize (onSpan p now sp st)
        = length (incompleteEmissions st) + storeSize st + 1
    \<and> overflow (onSpan p now sp st) + storeSize (onSpan p now sp st)
        = overflow st + storeSize st + 1
    \<and> filter (\<lambda>e. \<not> incomplete e) (emitted (onSpan p now sp st))
        = filter (\<lambda>e. \<not> incomplete e) (emitted st)"
proof -
  have None: "lookupKey k (store st) = None"
    using fresh by (simp add: lookupKey_None storeKeys_def)
  note os = onSpan_absent[OF ps None, of p now]
  let ?h = "merge (newHalfEdge k (now + wait p)) u"
  have kh: "key ?h = k" by (simp add: merge_fields newHalfEdge_def)
  have d': "distinct (map key (store st))" using d by (simp add: storeKeys_def)
  have knot: "k \<notin> key ` set (store st)" using fresh by (simp add: storeKeys_def)
  show ?thesis
  proof (cases "int (storeSize st) \<ge> maxItems p")
    case True
    with pos have "store st \<noteq> []" by (auto simp: storeSize_def)
    then obtain h0 where h0: "oldest (store st) = Some h0" "h0 \<in> set (store st)"
      using oldest_in by blast
    note ev = evictOldest_Some[OF h0(1), of p]
    have len: "length (filter (\<lambda>h'. key h' \<noteq> key h0) (store st)) + 1 = length (store st)"
      by (rule length_filter_neq_key[OF d' h0(2)])
    have knot': "k \<notin> key ` {x \<in> set (store st). key x \<noteq> key h0}"
      using knot by auto
    have eq: "int (length (store st)) = maxItems p"
      using True le by (simp add: storeSize_def)
    show ?thesis using True d' knot' kh len eq
      by (auto simp add: os ev Let_def storeKeys_def storeSize_def incompleteEmissions_def
          toCompletedEdge_fields distinct_map_filter)
  next
    case False
    then show ?thesis using d' knot kh
      by (auto simp add: os Let_def storeKeys_def storeSize_def incompleteEmissions_def)
  qed
qed

lemma onSpans_fresh:
  assumes pos: "0 < maxItems p"
  shows "distinct (storeKeys st) \<Longrightarrow> int (storeSize st) \<le> maxItems p \<Longrightarrow>
     None \<notin> set (map (spanKey \<circ> snd) xs) \<Longrightarrow>
     distinct (map (spanKey \<circ> snd) xs) \<Longrightarrow>
     set (map (spanKey \<circ> snd) xs) \<inter> Some ` set (storeKeys st) = {} \<Longrightarrow>
     storeSize (onSpans p xs st) = min (storeSize st + length xs) (nat (maxItems p))
     \<and> length (incompleteEmissions (onSpans p xs st)) + storeSize (onSpans p xs st)
         = length (incompleteEmissions st) + storeSize st + length xs
     \<and> overflow (onSpans p xs st) + storeSize (onSpans p xs st)
         = overflow st + storeSize st + length xs
     \<and> filter (\<lambda>e. \<not> incomplete e) (emitted (onSpans p xs st))
         = filter (\<lambda>e. \<not> incomplete e) (emitted st)"
proof (induction xs arbitrary: st)
  case Nil
  then show ?case by simp
next
  case (Cons x xs)
  obtain now sp where x: "x = (now, sp)" by (cases x)
  from Cons.prems(3) x obtain k where k: "spanKey sp = Some k" by (cases "spanKey sp") auto
  then obtain u where ps: "parseSpan sp = Some (k, u)"
    by (auto simp: spanKey_def)
  have fresh: "k \<notin> set (storeKeys st)" using Cons.prems(5) x k by auto
  let ?st1 = "onSpan p now sp st"
  note s = onSpan_fresh[OF ps fresh Cons.prems(1) pos Cons.prems(2), of now]
  have d1: "distinct (storeKeys ?st1)" using s by simp
  have le1: "int (storeSize ?st1) \<le> maxItems p" using s pos by simp
  have wf: "None \<notin> set (map (spanKey \<circ> snd) xs)" using Cons.prems(3) by simp
  have dk: "distinct (map (spanKey \<circ> snd) xs)" using Cons.prems(4) by (simp add: comp_def)
  have sub: "set (storeKeys ?st1) \<subseteq> insert k (set (storeKeys st))" using s by simp
  have knot: "Some k \<notin> set (map (spanKey \<circ> snd) xs)" using Cons.prems(4) x k by simp
  have no: False if k': "Some k' \<in> set (map (spanKey \<circ> snd) xs)" "k' \<in> set (storeKeys ?st1)"
    for k'
  proof -
    from sub k'(2) have "k' = k \<or> k' \<in> set (storeKeys st)" by blast
    then show False
    proof
      assume "k' = k" with k'(1) knot show False by simp
    next
      assume "k' \<in> set (storeKeys st)"
      then have "Some k' \<in> Some ` set (storeKeys st)" by simp
      moreover have "Some k' \<in> set (map (spanKey \<circ> snd) (x # xs))" using k'(1) by simp
      ultimately show False using Cons.prems(5) by blast
    qed
  qed
  have disj: "set (map (spanKey \<circ> snd) xs) \<inter> Some ` set (storeKeys ?st1) = {}"
    using no by blast
  note ih = Cons.IH[OF d1 le1 wf dk disj]
  from ih s show ?case by (simp add: x)
qed

text \<open>
  C2. Let \<open>MaxItems\<close> be positive and the store hold at most \<open>MaxItems\<close> half edges.
  Spans of distinct keys, none of them resident, arrive one after another. Then after
  every arrival the size of the store is at most \<open>MaxItems\<close>; in the end it is the smaller
  of \<open>MaxItems\<close> and the number of half edges offered; and the evictions emitted, as
  counted among the emitted edges and by the overflow counter, are exactly one for each
  insert beyond the bound.
\<close>

theorem capacity_bound:
  assumes "0 < MaxItems cfg"
    and "distinct (storeKeys st)"
    and "int (storeSize st) \<le> MaxItems cfg"
    and "None \<notin> set (map (spanKey \<circ> snd) xs)"
    and "distinct (map (spanKey \<circ> snd) xs)"
    and "set (map (spanKey \<circ> snd) xs) \<inter> Some ` set (storeKeys st) = {}"
  shows "(\<forall>n. int (storeSize (onSpans (newEngine cfg) (take n xs) st)) \<le> MaxItems cfg)
    \<and> storeSize (onSpans (newEngine cfg) xs st)
        = min (storeSize st + length xs) (nat (MaxItems cfg))
    \<and> length (incompleteEmissions (onSpans (newEngine cfg) xs st))
        = length (incompleteEmissions st) + (storeSize st + length xs - nat (MaxItems cfg))
    \<and> overflow (onSpans (newEngine cfg) xs st)
        = overflow st + (storeSize st + length xs - nat (MaxItems cfg))"
proof -
  let ?p = "newEngine cfg"
  have pos: "0 < maxItems ?p" using assms(1) by (simp add: newEngine_fields)
  have le: "int (storeSize st) \<le> maxItems ?p" using assms(3) by (simp add: newEngine_fields)
  have bound: "int (storeSize (onSpans ?p (take n xs) st)) \<le> MaxItems cfg" for n
  proof -
    have wf: "None \<notin> set (map (spanKey \<circ> snd) (take n xs))"
      using assms(4) by (auto dest: in_set_takeD)
    have dk: "distinct (map (spanKey \<circ> snd) (take n xs))"
      using assms(5) by (simp add: take_map[symmetric] del: map_map)
    have disj: "set (map (spanKey \<circ> snd) (take n xs)) \<inter> Some ` set (storeKeys st) = {}"
      using assms(6) by (auto dest: in_set_takeD)
    from onSpans_fresh[OF pos assms(2) le wf dk disj] assms(1) show ?thesis
      by (simp add: newEngine_fields)
  qed
  note m = onSpans_fresh[OF pos assms(2) le assms(4,5,6)]
  let ?st' = "onSpans ?p xs st"
  have sz: "storeSize ?st' = min (storeSize st + length xs) (nat (MaxItems cfg))"
    using m by (simp add: newEngine_fields)
  have inc: "length (incompleteEmissions ?st')
        = length (incompleteEmissions st) + (storeSize st + length xs - nat (MaxItems cfg))"
    using m sz by arith
  have ov: "overflow ?st' = overflow st + (storeSize st + length xs - nat (MaxItems cfg))"
    using m sz by arith
  from bound sz inc ov show ?thesis by blast
qed

theorem capacity_bound_witness:
  "0 < MaxItems (scenarioConfig\<lparr>MaxItems := 2\<rparr>)
   \<and> int (storeSize emptyEngine) \<le> MaxItems (scenarioConfig\<lparr>MaxItems := 2\<rparr>)
   \<and> map (spanKey \<circ> snd)
       [(0::int, clientSpanA), (1, clientSpanA\<lparr>spanID := Some 2\<rparr>),
        (2, clientSpanA\<lparr>spanID := Some 3\<rparr>)] = [Some (1, 1), Some (1, 2), Some (1, 3)]
   \<and> storeSize (onSpans (newEngine (scenarioConfig\<lparr>MaxItems := 2\<rparr>))
       [(0, clientSpanA), (1, clientSpanA\<lparr>spanID := Some 2\<rparr>),
        (2, clientSpanA\<lparr>spanID := Some 3\<rparr>)] emptyEngine) = 2
   \<and> length (incompleteEmissions (onSpans (newEngine (scenarioConfig\<lparr>MaxItems := 2\<rparr>))
       [(0, clientSpanA), (1, clientSpanA\<lparr>spanID := Some 2\<rparr>),
        (2, clientSpanA\<lparr>spanID := Some 3\<rparr>)] emptyEngine)) = 1
   \<and> overflow (onSpans (newEngine (scenarioConfig\<lparr>MaxItems := 2\<rparr>))
       [(0, clientSpanA), (1, clientSpanA\<lparr>spanID := Some 2\<rparr>),
        (2, clientSpanA\<lparr>spanID := Some 3\<rparr>)] emptyEngine) = 1"
proof -
  let ?cfg = "scenarioConfig\<lparr>MaxItems := 2\<rparr>"
  let ?xs = "[(0::int, clientSpanA), (1, clientSpanA\<lparr>spanID := Some 2\<rparr>),
        (2, clientSpanA\<lparr>spanID := Some 3\<rparr>)]"
  have h1: "0 < MaxItems ?cfg" by simp
  have h2: "distinct (storeKeys emptyEngine)" by (simp add: storeKeys_def emptyEngine_def)
  have h3: "int (storeSize emptyEngine) \<le> MaxItems ?cfg"
    by (simp add: storeSize_def emptyEngine_def)
  have h4: "None \<notin> set (map (spanKey \<circ> snd) ?xs)"
    by (simp add: spanKey_def parseSpan_def clientSpanA_def)
  have h5: "distinct (map (spanKey \<circ> snd) ?xs)"
    by (simp add: spanKey_def parseSpan_def clientSpanA_def)
  have h6: "set (map (spanKey \<circ> snd) ?xs) \<inter> Some ` set (storeKeys emptyEngine) = {}"
    by (simp add: storeKeys_def emptyEngine_def)
  have e: "storeSize emptyEngine = 0" "incompleteEmissions emptyEngine = []"
    "overflow emptyEngine = 0"
    by (simp_all add: storeSize_def incompleteEmissions_def emptyEngine_def)
  have k: "map (spanKey \<circ> snd) ?xs = [Some (1, 1), Some (1, 2), Some (1, 3)]"
    by (simp add: spanKey_def parseSpan_def clientSpanA_def)
  show ?thesis
    using h1 h3 k capacity_bound [OF h1 h2 h3 h4 h5 h6]
    by (simp add: e)
qed

subsection \<open>Classification\<close>

lemma emit_requestCount:
  "requestCount (emit p e st) series =
     requestCount st series
     + (if series = (client e, server e, proto e, isSuccess p (proto e) (status e)) then 1 else 0)"
  by (simp add: emit_def Let_def split: option.splits)

text \<open>
  C4. Emitting an edge with an HTTP status counts the request in the success class iff
  the status is in the configured HTTP set, and in the other class not at all; likewise
  for a gRPC status and the gRPC set. With the HTTP set {200, 301}, status 200 is a
  success and status 404 an error.
\<close>

theorem success_classification:
  "(proto e = HTTP \<and> status e = Some c \<longrightarrow>
      requestCount (emit p e st) (client e, server e, HTTP, c \<in> httpSuccessCodes p)
        = requestCount st (client e, server e, HTTP, c \<in> httpSuccessCodes p) + 1
    \<and> requestCount (emit p e st) (client e, server e, HTTP, c \<notin> httpSuccessCodes p)
        = requestCount st (client e, server e, HTTP, c \<notin> httpSuccessCodes p))
   \<and> (proto e = GRPC \<and> status e = Some c \<longrightarrow>
      requestCount (emit p e st) (client e, server e, GRPC, c \<in> grpcSuccessCodes p)
        = requestCount st (client e, server e, GRPC, c \<in> grpcSuccessCodes p) + 1
    \<and> requestCount (emit p e st) (client e, server e, GRPC, c \<notin> grpcSuccessCodes p)
        = requestCount st (client e, server e, GRPC, c \<notin> grpcSuccessCodes p))
   \<and> isSuccess p HTTP (Some c) = (c \<in> httpSuccessCodes p)
   \<and> isSuccess p GRPC (Some c) = (c \<in> grpcSuccessCodes p)
   \<and> (httpSuccessCodes p = {200, 301} \<longrightarrow>
        isSuccess p HTTP (Some 200) \<and> \<not> isSuccess p HTTP (Some 404))"
  by (auto simp: emit_requestCount isSuccess_def)

theorem success_classification_witness:
  "requestCount (emit (newEngine scenarioConfig)
      \<lparr>edgeKey = (1, 1), client = Some ''A'', server = Some ''B'', latency = Some 5000000,
       status = Some 200, proto = HTTP, incomplete = False\<rparr> emptyEngine)
      (Some ''A'', Some ''B'', HTTP, True) = 1
   \<and> requestCount (emit (newEngine scenarioConfig)
      \<lparr>edgeKey = (1, 1), client = Some ''A'', server = Some ''B'', latency = Some 5000000,
       status = Some 200, proto = HTTP, incomplete = False\<rparr> emptyEngine)
      (Some ''A'', Some ''B'', HTTP, False) = 0
   \<and> isSuccess (newEngine scenarioConfig) HTTP (Some 200)
   \<and> \<not> isSuccess (newEngine scenarioConfig) HTTP (Some 404)"
proof -
  let ?p = "newEngine scenarioConfig"
  let ?e = "\<lparr>edgeKey = (1, 1), client = Some ''A'', server = Some ''B'', latency = Some 5000000,
       status = Some 200, proto = HTTP, incomplete = False\<rparr>"
  have s: "httpSuccessCodes ?p = {200, 301}"
    by (simp add: newEngine_def scenarioConfig_def)
  have z: "\<And>x. requestCount emptyEngine x = 0" by (simp add: emptyEngine_def)
  show ?thesis
    using success_classification [of ?e 200 ?p emptyEngine] s
    by (simp add: z)
qed

text \<open>
  The consequence for classification: whatever codes the file gives, the sets built from
  the decoded default configuration are empty, and no HTTP or gRPC status is a success.
\<close>

lemma undecoded_codes_classify_nothing:
  "httpSuccessCodes (newEngine (decodeSuccessCodesKey sect zeroConfig)) = {}
   \<and> grpcSuccessCodes (newEngine (decodeSuccessCodesKey sect zeroConfig)) = {}
   \<and> \<not> isSuccess (newEngine (decodeSuccessCodesKey sect zeroConfig)) HTTP sc
   \<and> \<not> isSuccess (newEngine (decodeSuccessCodesKey sect zeroConfig)) GRPC sc"
  by (cases sect)
    (simp_all add: newEngine_def isSuccess_def decodeSuccessCodesKey_def decodeSuccessCodes_def
      decodeField_def isExported_def httpField_def grpcField_def zeroConfig_def
      zeroSuccessCodes_def split: option.splits)

end
